theory Spec2Isabelle
  imports Main
begin

section \<open>Data model\<close>

text \<open>
  The package \<^verbatim>\<open>configor\<close> (\<^verbatim>\<open>src/configor.go\<close>) reads configuration files into a Go
  struct and then walks the struct by reflection, overlaying environment variables and
  the defaults declared in struct tags.

  An \<open>error\<close> of the package is either built by the package itself
  (\<^verbatim>\<open>errors.New\<close>, \<^verbatim>\<open>fmt.Errorf\<close>: the message is in the source) or is handed up unchanged
  from a library call (\<^verbatim>\<open>yaml\<close>, \<^verbatim>\<open>json\<close>, \<^verbatim>\<open>toml\<close>, \<^verbatim>\<open>ioutil\<close>).
\<close>

datatype error = Errorf string | LibError string

text \<open>
  \<^verbatim>\<open>reflect.StructField\<close>: the declared name of a field and its tag. A tag is a list of
  key/value pairs; \<^verbatim>\<open>Tag.Get\<close> returns the value of the first pair with the key and the
  empty string when there is none.
\<close>

record fieldStruct =
  Name :: string
  Tag :: "(string \<times> string) list"

definition Tag_Get :: "(string \<times> string) list \<Rightarrow> string \<Rightarrow> string" where
  "Tag_Get tag key = (case map_of tag key of None \<Rightarrow> [] | Some v \<Rightarrow> v)"

text \<open>
  The values reflection walks over. A struct value carries the descriptor of each of its
  fields, in declaration order. A pointer is \<open>VPtr None\<close> when nil and owns its pointee
  otherwise (the configuration object is a tree: two pointers never share a pointee).
  A slice is \<open>VSlice None\<close> when nil, which Go tells apart from an empty slice.
  All fields are exported (\<^verbatim>\<open>field.Interface()\<close> panics on an unexported one).
\<close>

datatype val =
    VInt int
  | VString string
  | VBool bool
  | VPtr "val option"
  | VSlice "val list option"
  | VStruct "(fieldStruct \<times> val) list"

text \<open>\<^verbatim>\<open>reflect.Kind\<close>; \<open>KInvalid\<close> is the kind of the zero \<^verbatim>\<open>reflect.Value\<close>.\<close>

datatype kind = KInvalid | KInt | KString | KBool | KPtr | KSlice | KStruct

text \<open>A \<^verbatim>\<open>reflect.Value\<close> is \<open>Some v\<close>, or \<open>None\<close> for the zero Value.\<close>

fun Kind :: "val option \<Rightarrow> kind" where
  "Kind None = KInvalid"
| "Kind (Some (VInt _)) = KInt"
| "Kind (Some (VString _)) = KString"
| "Kind (Some (VBool _)) = KBool"
| "Kind (Some (VPtr _)) = KPtr"
| "Kind (Some (VSlice _)) = KSlice"
| "Kind (Some (VStruct _)) = KStruct"

text \<open>\<^verbatim>\<open>reflect.Indirect\<close>: the pointee of a pointer (the zero Value for nil), else the value.\<close>

fun Indirect :: "val \<Rightarrow> val option" where
  "Indirect (VPtr p) = p"
| "Indirect v = Some v"

text \<open>
  \<^verbatim>\<open>reflect.Zero(field.Type())\<close>: the zero value of the type of a value. The type of a
  struct value is read off its descriptors.
\<close>

fun Zero :: "val \<Rightarrow> val" where
  "Zero (VInt _) = VInt 0"
| "Zero (VString _) = VString []"
| "Zero (VBool _) = VBool False"
| "Zero (VPtr _) = VPtr None"
| "Zero (VSlice _) = VSlice None"
| "Zero (VStruct flds) = VStruct (map (\<lambda>fv. (fst fv, Zero (snd fv))) flds)"

text \<open>
  \<^verbatim>\<open>reflect.DeepEqual\<close> on two values of one type: scalars by \<^verbatim>\<open>==\<close>, structs field by
  field, pointers by their pointees, slices both nil or both non-nil with equal elements.
  On the tree of values this is equality.
\<close>

definition DeepEqual :: "val \<Rightarrow> val \<Rightarrow> bool" where
  "DeepEqual x y = (x = y)"

section \<open>The process and the libraries\<close>

text \<open>
  What the package reads from outside: the process environment (\<^verbatim>\<open>os.Getenv\<close>, the empty
  string for an unset variable), \<^verbatim>\<open>os.Args[0]\<close>, the file system (\<^verbatim>\<open>os.Stat\<close>,
  \<^verbatim>\<open>ioutil.ReadFile\<close>, \<^verbatim>\<open>ioutil.WriteFile\<close>) and the three codecs. A decoder gets the
  bytes and the object it decodes into and gives the object back, with the message of
  its error if it failed (a decoder that fails may already have written into the
  object). An encoder gives bytes or the message of its error.
\<close>

record world =
  Getenv :: "string \<Rightarrow> string"
  Args0 :: string
  isRegular :: "string \<Rightarrow> bool"
  ReadFile :: "string \<Rightarrow> string + string"
  WriteFile :: "string \<Rightarrow> string \<Rightarrow> string option"
  yamlUnmarshal :: "string \<Rightarrow> val \<Rightarrow> val \<times> string option"
  tomlUnmarshal :: "string \<Rightarrow> val \<Rightarrow> val \<times> string option"
  jsonUnmarshal :: "string \<Rightarrow> val \<Rightarrow> val \<times> string option"
  yamlMarshal :: "val \<Rightarrow> string + string"
  jsonMarshal :: "val \<Rightarrow> string + string"

text \<open>The error of a library call, as the package hands it up.\<close>

definition libResult :: "val \<times> string option \<Rightarrow> val \<times> error option" where
  "libResult r = (fst r, map_option LibError (snd r))"

section \<open>String helpers of the Go library\<close>

text \<open>\<^verbatim>\<open>strings.HasSuffix\<close>.\<close>

definition HasSuffix :: "string \<Rightarrow> string \<Rightarrow> bool" where
  "HasSuffix s suffix =
     (length suffix \<le> length s \<and> drop (length s - length suffix) s = suffix)"

text \<open>\<^verbatim>\<open>strings.TrimSuffix\<close>.\<close>

definition TrimSuffix :: "string \<Rightarrow> string \<Rightarrow> string" where
  "TrimSuffix s suffix =
     (if HasSuffix s suffix then take (length s - length suffix) s else s)"

text \<open>
  \<^verbatim>\<open>regexp.MatchString("/_test/", s)\<close>: the pattern has no metacharacter, so it matches
  when \<open>s\<close> contains it.
\<close>

fun contains :: "string \<Rightarrow> string \<Rightarrow> bool" where
  "contains [] pat = (pat = [])"
| "contains (c # cs) pat = (take (length pat) (c # cs) = pat \<or> contains cs pat)"

text \<open>
  \<^verbatim>\<open>path.Ext\<close>: the suffix beginning at the last dot of the last slash-separated element,
  empty when that element has no dot.
\<close>

definition Ext :: "string \<Rightarrow> string" where
  "Ext p =
     (let seg = takeWhile (\<lambda>c. c \<noteq> CHR ''/'') (rev p)
      in if CHR ''.'' \<in> set seg
         then CHR ''.'' # rev (takeWhile (\<lambda>c. c \<noteq> CHR ''.'') seg)
         else [])"

text \<open>\<^verbatim>\<open>strings.Join\<close>.\<close>

fun Join :: "string list \<Rightarrow> string \<Rightarrow> string" where
  "Join [] sep = []"
| "Join [x] sep = x"
| "Join (x # y # ys) sep = x @ sep @ Join (y # ys) sep"

text \<open>
  \<^verbatim>\<open>strings.ToUpper\<close> on ASCII: the letters a to z are mapped to A to Z, every other byte
  is kept.
\<close>

definition upperChar :: "char \<Rightarrow> char" where
  "upperChar c =
     (case map_of (zip ''abcdefghijklmnopqrstuvwxyz'' ''ABCDEFGHIJKLMNOPQRSTUVWXYZ'') c of
        None \<Rightarrow> c
      | Some u \<Rightarrow> u)"

definition ToUpper :: "string \<Rightarrow> string" where
  "ToUpper s = map upperChar s"

text \<open>\<^verbatim>\<open>fmt.Sprintf("%d", i)\<close> for an index \<open>i\<close>: its decimal digits.\<close>

fun Sprintf_d :: "nat \<Rightarrow> string" where
  "Sprintf_d n =
     (if n < 10 then [''0123456789'' ! n]
      else Sprintf_d (n div 10) @ [''0123456789'' ! (n mod 10)])"

declare Sprintf_d.simps [simp del]

section \<open>The environment name and the prefix\<close>

text \<open>\<^verbatim>\<open>ENV\<close>, lines 20 to 29.\<close>

definition ENV :: "world \<Rightarrow> string" where
  "ENV W =
     (let env = Getenv W ''CONFIGOR_ENV''
      in if env \<noteq> [] then env
         else if contains (Args0 W) ''/_test/'' then ''test''
         else ''development'')"

text \<open>\<^verbatim>\<open>getPrefix\<close>, lines 79 to 84 (the argument \<^verbatim>\<open>config\<close> is not used).\<close>

definition getPrefix :: "world \<Rightarrow> val \<Rightarrow> string" where
  "getPrefix W config =
     (let prefix = Getenv W ''CONFIGOR_ENV_PREFIX''
      in if prefix \<noteq> [] then prefix else ''configor'')"

section \<open>The file resolver\<close>

text \<open>
  \<^verbatim>\<open>getConfigurationWithENV\<close>, lines 31 to 45: the name of the variant of \<open>file\<close> for
  \<open>env\<close>, when it is a regular file.
\<close>

definition envFileOf :: "string \<Rightarrow> string \<Rightarrow> string" where
  "envFileOf file env =
     (let extname = Ext file
      in if extname = [] then file @ ''.'' @ env
         else TrimSuffix file extname @ ''.'' @ env @ extname)"

definition getConfigurationWithENV :: "world \<Rightarrow> string \<Rightarrow> string \<Rightarrow> error + string" where
  "getConfigurationWithENV W file env =
     (let envFile = envFileOf file env
      in if isRegular W envFile then Inr envFile
         else Inl (Errorf (''failed to find file '' @ file)))"

text \<open>
  The body of the loop of \<^verbatim>\<open>getConfigurations\<close>, lines 51 to 74, for one \<open>file\<close>: the
  results so far, extended, or the error that ends the loop.
\<close>

definition resolveFile :: "world \<Rightarrow> string \<Rightarrow> string \<Rightarrow> string list \<Rightarrow> error + string list" where
  "resolveFile W env file results =
     (let foundFile1 = isRegular W file;
          results1 = (if isRegular W file then results @ [file] else results);
          withEnv = getConfigurationWithENV W file env;
          foundFile2 = (case withEnv of Inr _ \<Rightarrow> True | Inl _ \<Rightarrow> foundFile1);
          results2 = (case withEnv of Inr f \<Rightarrow> results1 @ [f] | Inl _ \<Rightarrow> results1)
      in if \<not> foundFile2
         then (case getConfigurationWithENV W file ''example'' of
                 Inr example \<Rightarrow> Inr (results2 @ [example])
               | Inl _ \<Rightarrow>
                   Inl (Errorf (''Failed to find configuration '' @ file @ [CHR 0x0A])))
         else Inr results2)"

text \<open>
  The loop of \<^verbatim>\<open>getConfigurations\<close>, lines 50 to 75, runs from the last file to the
  first: \<open>resolveLoop\<close> is given the files still to visit, in the order of the visits.
\<close>

fun resolveLoop :: "world \<Rightarrow> string \<Rightarrow> string list \<Rightarrow> string list \<Rightarrow> error + string list" where
  "resolveLoop W env [] results = Inr results"
| "resolveLoop W env (file # rest) results =
     (case resolveFile W env file results of
        Inl err \<Rightarrow> Inl err
      | Inr results' \<Rightarrow> resolveLoop W env rest results')"

text \<open>\<^verbatim>\<open>getConfigurations\<close>, lines 47 to 77.\<close>

definition getConfigurations :: "world \<Rightarrow> string list \<Rightarrow> error + string list" where
  "getConfigurations W files = resolveLoop W (ENV W) (rev files) []"

text \<open>
  For stating what the resolver returns: the paths one file reference contributes (the
  base path and then its environment variant, as far as they are regular files, or else
  the example variant alone), and the condition under which line 72 fails. Lemma
  \<open>resolveFile_variants\<close> below proves that this is what \<open>resolveFile\<close> computes.
\<close>

definition variants :: "world \<Rightarrow> string \<Rightarrow> string \<Rightarrow> string list" where
  "variants W env file =
     (if isRegular W file \<or> isRegular W (envFileOf file env)
      then (if isRegular W file then [file] else [])
           @ (if isRegular W (envFileOf file env) then [envFileOf file env] else [])
      else [envFileOf file ''example''])"

definition missing :: "world \<Rightarrow> string \<Rightarrow> string \<Rightarrow> bool" where
  "missing W env file =
     (\<not> isRegular W file \<and> \<not> isRegular W (envFileOf file env)
      \<and> \<not> isRegular W (envFileOf file ''example''))"

section \<open>Reading and writing one file\<close>

text \<open>
  \<^verbatim>\<open>load\<close>, lines 188 to 211. The result is the object after the call and the error
  returned. In the default branch each decoder works on the object as the one before
  left it.
\<close>

definition load :: "world \<Rightarrow> val \<Rightarrow> string \<Rightarrow> val \<times> error option" where
  "load W config file =
     (case ReadFile W file of
        Inl err \<Rightarrow> (config, Some (LibError err))
      | Inr data \<Rightarrow>
          if HasSuffix file ''.yaml'' \<or> HasSuffix file ''.yml''
          then libResult (yamlUnmarshal W data config)
          else if HasSuffix file ''.toml''
          then libResult (tomlUnmarshal W data config)
          else if HasSuffix file ''.json''
          then libResult (jsonUnmarshal W data config)
          else (case tomlUnmarshal W data config of
                  (c1, None) \<Rightarrow> (c1, None)
                | (c1, Some _) \<Rightarrow>
                    (case jsonUnmarshal W data c1 of
                       (c2, None) \<Rightarrow> (c2, None)
                     | (c2, Some _) \<Rightarrow>
                         (case yamlUnmarshal W data c2 of
                            (c3, None) \<Rightarrow> (c3, None)
                          | (c3, Some _) \<Rightarrow>
                              (c3, Some (Errorf ''failed to decode config''))))))"

text \<open>
  \<^verbatim>\<open>Save\<close>, lines 87 to 106. The result is the calls of \<^verbatim>\<open>ioutil.WriteFile\<close> made (file
  name and bytes) and the error returned. Line 101 returns \<^verbatim>\<open>nil\<close> when the encoder
  failed.
\<close>

definition Save :: "world \<Rightarrow> val \<Rightarrow> string \<Rightarrow> (string \<times> string) list \<times> error option" where
  "Save W config filename =
     (if HasSuffix filename ''.yaml'' \<or> HasSuffix filename ''.yml''
      then (case yamlMarshal W config of
              Inl err \<Rightarrow> ([], None)
            | Inr js \<Rightarrow> ([(filename, js)], map_option LibError (WriteFile W filename js)))
      else if HasSuffix filename ''.json''
      then (case jsonMarshal W config of
              Inl err \<Rightarrow> ([], None)
            | Inr js \<Rightarrow> ([(filename, js)], map_option LibError (WriteFile W filename js)))
      else ([], Some (Errorf ''Unknown file type'')))"

section \<open>The binding engine\<close>

text \<open>
  \<^verbatim>\<open>processTags\<close>, lines 127 to 186, is modelled in pieces that follow its loop body.
  Every piece returns the value as the call leaves it and the error returned, if any.

  Lines 139 to 142: the name of the environment variable of a field.
\<close>

definition envNameOf :: "string list \<Rightarrow> fieldStruct \<Rightarrow> string" where
  "envNameOf prefix fieldStruct =
     (let envName = Tag_Get (Tag fieldStruct) ''env''
      in if envName = [] then ToUpper (Join (prefix @ [Name fieldStruct]) ''_'')
         else envName)"

text \<open>Lines 144 to 150: the value of the variable, when not empty, is decoded into the field.\<close>

definition overrideStep :: "world \<Rightarrow> string \<Rightarrow> val \<Rightarrow> val \<times> error option" where
  "overrideStep W envName field =
     (if envName \<noteq> []
      then (let v = Getenv W envName
            in if v \<noteq> [] then libResult (yamlUnmarshal W v field) else (field, None))
      else (field, None))"

text \<open>Lines 152 to 162: a blank field gets its default, or fails when required.\<close>

definition defaultStep :: "world \<Rightarrow> fieldStruct \<Rightarrow> val \<Rightarrow> val \<times> error option" where
  "defaultStep W fieldStruct field =
     (if DeepEqual field (Zero field)
      then (let v = Tag_Get (Tag fieldStruct) ''default''
            in if v \<noteq> [] then libResult (yamlUnmarshal W v field)
               else if Tag_Get (Tag fieldStruct) ''required'' = ''true''
               then (field, Some (Errorf (Name fieldStruct @ '' is required, but blank'')))
               else (field, None))
      else (field, None))"

text \<open>
  The recursive calls can go on for ever (a struct type that contains a pointer to
  itself with a default allocates a new struct at every level), so \<^verbatim>\<open>processTags\<close> is
  given fuel, one unit for each level of nesting; \<open>None\<close> is "out of fuel". The type of
  the recursive call, as the pieces below take it:
\<close>

type_synonym subcall = "val \<Rightarrow> string list \<Rightarrow> (val \<times> error option) option"

text \<open>
  Lines 174 to 183: the loop over the elements of a slice, from index \<open>i\<close> on. \<open>path\<close>
  is \<^verbatim>\<open>append(prefix, fieldStruct.Name)\<close>. \<^verbatim>\<open>processTags\<close> gets the address of the
  element itself (line 178), also when the element is a pointer to a struct.
\<close>

fun sliceLoop :: "subcall \<Rightarrow> string list \<Rightarrow> nat \<Rightarrow> val list \<Rightarrow> (val list \<times> error option) option" where
  "sliceLoop rec path i [] = Some ([], None)"
| "sliceLoop rec path i (x # xs) =
     (if Kind (Indirect x) = KStruct
      then (case rec x (path @ [Sprintf_d i]) of
              None \<Rightarrow> None
            | Some (x', Some err) \<Rightarrow> Some (x' # xs, Some err)
            | Some (x', None) \<Rightarrow>
                (case sliceLoop rec path (Suc i) xs of
                   None \<Rightarrow> None
                 | Some (xs', e) \<Rightarrow> Some (x' # xs', e)))
      else (case sliceLoop rec path (Suc i) xs of
              None \<Rightarrow> None
            | Some (xs', e) \<Rightarrow> Some (x # xs', e)))"

text \<open>
  Lines 164 to 183: the field is followed through its pointers (a nil pointer ends the
  walk with the zero Value, which is neither a struct nor a slice); a struct is bound
  recursively and a slice element by element. The pointers are put back around the
  result, as the calls work in place.
\<close>

fun descend :: "subcall \<Rightarrow> fieldStruct \<Rightarrow> string list \<Rightarrow> val \<Rightarrow> (val \<times> error option) option" where
  "descend rec fieldStruct prefix (VPtr None) = Some (VPtr None, None)"
| "descend rec fieldStruct prefix (VPtr (Some p)) =
     (case descend rec fieldStruct prefix p of
        None \<Rightarrow> None
      | Some (p', e) \<Rightarrow> Some (VPtr (Some p'), e))"
| "descend rec fieldStruct prefix (VStruct flds) =
     rec (VStruct flds) (prefix @ [Name fieldStruct])"
| "descend rec fieldStruct prefix (VSlice None) = Some (VSlice None, None)"
| "descend rec fieldStruct prefix (VSlice (Some xs)) =
     (case sliceLoop rec (prefix @ [Name fieldStruct]) 0 xs of
        None \<Rightarrow> None
      | Some (xs', e) \<Rightarrow> Some (VSlice (Some xs'), e))"
| "descend rec fieldStruct prefix v = Some (v, None)"

text \<open>Lines 135 to 183: the body of the loop over the fields, for one field.\<close>

definition bindField :: "subcall \<Rightarrow> world \<Rightarrow> string list \<Rightarrow> fieldStruct \<Rightarrow> val \<Rightarrow> (val \<times> error option) option" where
  "bindField rec W prefix fieldStruct field =
     (case overrideStep W (envNameOf prefix fieldStruct) field of
        (field1, Some err) \<Rightarrow> Some (field1, Some err)
      | (field1, None) \<Rightarrow>
          (case defaultStep W fieldStruct field1 of
             (field2, Some err) \<Rightarrow> Some (field2, Some err)
           | (field2, None) \<Rightarrow> descend rec fieldStruct prefix field2))"

text \<open>Lines 134 to 185: the loop over the fields, in declaration order.\<close>

fun fieldLoop :: "subcall \<Rightarrow> world \<Rightarrow> string list \<Rightarrow> (fieldStruct \<times> val) list \<Rightarrow> ((fieldStruct \<times> val) list \<times> error option) option" where
  "fieldLoop rec W prefix [] = Some ([], None)"
| "fieldLoop rec W prefix ((fieldStruct, field) # rest) =
     (case bindField rec W prefix fieldStruct field of
        None \<Rightarrow> None
      | Some (field', Some err) \<Rightarrow> Some ((fieldStruct, field') # rest, Some err)
      | Some (field', None) \<Rightarrow>
          (case fieldLoop rec W prefix rest of
             None \<Rightarrow> None
           | Some (rest', e) \<Rightarrow> Some ((fieldStruct, field') # rest', e)))"

text \<open>
  \<^verbatim>\<open>processTags\<close>, lines 127 to 186. \<open>config\<close> is the value the argument \<^verbatim>\<open>config\<close> points
  to (\<^verbatim>\<open>reflect.Indirect(reflect.ValueOf(config))\<close>, line 128).
\<close>

primrec processTags :: "nat \<Rightarrow> world \<Rightarrow> val \<Rightarrow> string list \<Rightarrow> (val \<times> error option) option" where
  "processTags 0 W config prefix = None"
| "processTags (Suc n) W config prefix =
     (case config of
        VStruct flds \<Rightarrow>
          (case fieldLoop (processTags n W) W prefix flds of
             None \<Rightarrow> None
           | Some (flds', e) \<Rightarrow> Some (VStruct flds', e))
      | _ \<Rightarrow> Some (config, Some (Errorf ''invalid config, should be struct'')))"

section \<open>Load\<close>

text \<open>The loop of \<^verbatim>\<open>Load\<close>, lines 114 to 118: the files are decoded in order into one object.\<close>

fun loadFiles :: "world \<Rightarrow> val \<Rightarrow> string list \<Rightarrow> val \<times> error option" where
  "loadFiles W config [] = (config, None)"
| "loadFiles W config (file # rest) =
     (case load W config file of
        (config', Some err) \<Rightarrow> (config', Some err)
      | (config', None) \<Rightarrow> loadFiles W config' rest)"

text \<open>
  Lines 120 to 124: the prefix list \<^verbatim>\<open>processTags\<close> is called with.
\<close>

definition initialPrefix :: "world \<Rightarrow> val \<Rightarrow> string list" where
  "initialPrefix W config =
     (let prefix = getPrefix W config in if prefix = ''-'' then [] else [prefix])"

text \<open>
  \<^verbatim>\<open>Load\<close>, lines 109 to 125, with the fuel of its call of \<^verbatim>\<open>processTags\<close>. \<open>config\<close> is
  the value the argument points to.
\<close>

definition Load :: "nat \<Rightarrow> world \<Rightarrow> val \<Rightarrow> string list \<Rightarrow> (val \<times> error option) option" where
  "Load n W config files =
     (case getConfigurations W files of
        Inl err \<Rightarrow> Some (config, Some err)
      | Inr paths \<Rightarrow>
          (case loadFiles W config paths of
             (config', Some err) \<Rightarrow> Some (config', Some err)
           | (config', None) \<Rightarrow> processTags n W config' (initialPrefix W config')))"

section \<open>Concrete instances\<close>

text \<open>
  A small process for the examples below: an environment and a file system given as
  lists, and stand-ins for the codecs that agree with the libraries on the inputs the
  examples use (a decimal integer into an int, a plain scalar into a string, the
  empty mapping \<^verbatim>\<open>{}\<close> into a struct, which it leaves as it is).
\<close>

fun atoi :: "string \<Rightarrow> nat \<Rightarrow> nat option" where
  "atoi [] acc = Some acc"
| "atoi (c # cs) acc =
     (case map_of (zip ''0123456789'' [0, 1, 2, 3, 4, 5, 6, 7, 8, 9]) c of
        None \<Rightarrow> None
      | Some d \<Rightarrow> atoi cs (10 * acc + d))"

fun demoYaml :: "string \<Rightarrow> val \<Rightarrow> val \<times> string option" where
  "demoYaml s (VInt k) =
     (case (if s = [] then None else atoi s 0) of
        Some n \<Rightarrow> (VInt (int n), None)
      | None \<Rightarrow> (VInt k, Some ''yaml: cannot unmarshal into int''))"
| "demoYaml s (VString _) = (VString s, None)"
| "demoYaml s (VStruct flds) =
     (if s = ''{}'' then (VStruct flds, None)
      else (VStruct flds, Some ''yaml: cannot unmarshal into struct''))"
| "demoYaml s v = (v, Some ''yaml: unsupported'')"

definition demoWorld :: "(string \<times> string) list \<Rightarrow> string \<Rightarrow> (string \<times> string) list \<Rightarrow> world" where
  "demoWorld env arg0 files =
     \<lparr> Getenv = (\<lambda>k. case map_of env k of None \<Rightarrow> [] | Some v \<Rightarrow> v),
       Args0 = arg0,
       isRegular = (\<lambda>p. map_of files p \<noteq> None),
       ReadFile = (\<lambda>p. case map_of files p of None \<Rightarrow> Inl ''no such file'' | Some d \<Rightarrow> Inr d),
       WriteFile = (\<lambda>p d. None),
       yamlUnmarshal = demoYaml,
       tomlUnmarshal = (\<lambda>d c. if d = [] then (c, None) else (c, Some ''toml: syntax error'')),
       jsonUnmarshal = (\<lambda>d c. if d = ''{}'' then (c, None) else (c, Some ''json: syntax error'')),
       yamlMarshal = (\<lambda>c. Inr ''{}''),
       jsonMarshal = (\<lambda>c. Inr ''{}'') \<rparr>"

text \<open>
  A process for the example of a binding that does not end: the type
  a struct type \<^verbatim>\<open>T\<close> with one field \<^verbatim>\<open>Next\<close> of type \<^verbatim>\<open>*T\<close> and the tag
  \<^verbatim>\<open>default:"{}"\<close>, for which the decoder allocates a new \<^verbatim>\<open>T\<close> behind a nil pointer
  when it is given the mapping \<^verbatim>\<open>{}\<close>.
\<close>

definition nextField :: fieldStruct where
  "nextField = \<lparr>Name = ''Next'', Tag = [(''default'', ''{}'')]\<rparr>"

definition loopWorld :: world where
  "loopWorld =
     (demoWorld [] ''/usr/bin/app'' [])
       \<lparr>yamlUnmarshal :=
          (\<lambda>s v. if s = ''{}'' \<and> v = VPtr None
                 then (VPtr (Some (VStruct [(nextField, VPtr None)])), None)
                 else demoYaml s v)\<rparr>"

text \<open>
  A process for the example of the order of decoding: two files that set the field
  \<^verbatim>\<open>Port\<close> of a struct with that one field, and a stand-in for the YAML decoder that
  reads the document \<^verbatim>\<open>port: N\<close> into it.
\<close>

fun portYaml :: "string \<Rightarrow> val \<Rightarrow> val \<times> string option" where
  "portYaml d (VStruct [(f, VInt k)]) =
     (if Name f = ''Port'' \<and> take 6 d = ''port: ''
      then (case atoi (drop 6 d) 0 of
              Some n \<Rightarrow> (VStruct [(f, VInt (int n))], None)
            | None \<Rightarrow> (VStruct [(f, VInt k)], Some ''yaml: cannot unmarshal into int''))
      else demoYaml d (VStruct [(f, VInt k)]))"
| "portYaml d v = demoYaml d v"

definition orderWorld :: world where
  "orderWorld =
     (demoWorld [] ''/usr/bin/app'' [(''a.yml'', ''port: 1''), (''b.yml'', ''port: 2'')])
       \<lparr>yamlUnmarshal := portYaml\<rparr>"

section \<open>The environment name\<close>

text \<open>\<open>contains\<close> is the search for a substring.\<close>

lemma contains_iff: "contains s pat \<longleftrightarrow> (\<exists>pre post. s = pre @ pat @ post)"
proof (induction s)
  case Nil
  then show ?case by auto
next
  case (Cons c cs)
  show ?case
  proof
    assume "contains (c # cs) pat"
    then consider "take (length pat) (c # cs) = pat" | "contains cs pat" by auto
    then show "\<exists>pre post. c # cs = pre @ pat @ post"
    proof cases
      case 1
      then have "c # cs = [] @ pat @ drop (length pat) (c # cs)"
        by (metis append_Nil append_take_drop_id)
      then show ?thesis by blast
    next
      case 2
      then obtain pre post where "cs = pre @ pat @ post" using Cons.IH by blast
      then have "c # cs = (c # pre) @ pat @ post" by simp
      then show ?thesis by blast
    qed
  next
    assume "\<exists>pre post. c # cs = pre @ pat @ post"
    then obtain pre post where e: "c # cs = pre @ pat @ post" by blast
    show "contains (c # cs) pat"
    proof (cases pre)
      case Nil
      then have "take (length pat) (c # cs) = pat" using e by simp
      then show ?thesis by simp
    next
      case (Cons a pre')
      then have "cs = pre' @ pat @ post" using e by simp
      then have "contains cs pat" using Cons.IH by blast
      then show ?thesis by simp
    qed
  qed
qed

text \<open>
  Claim C9. \<^verbatim>\<open>ENV\<close> returns the value of \<^verbatim>\<open>CONFIGOR_ENV\<close> when that variable is not empty;
  otherwise it returns "test" when the invocation path \<^verbatim>\<open>os.Args[0]\<close> matches the pattern
  \<^verbatim>\<open>/_test/\<close> (that is, contains it), and "development" in every remaining case.
\<close>

theorem ENV_result:
  "(Getenv W ''CONFIGOR_ENV'' \<noteq> [] \<longrightarrow> ENV W = Getenv W ''CONFIGOR_ENV'')
   \<and> (Getenv W ''CONFIGOR_ENV'' = [] \<and> (\<exists>pre post. Args0 W = pre @ ''/_test/'' @ post)
        \<longrightarrow> ENV W = ''test'')
   \<and> (Getenv W ''CONFIGOR_ENV'' = [] \<and> \<not> (\<exists>pre post. Args0 W = pre @ ''/_test/'' @ post)
        \<longrightarrow> ENV W = ''development'')"
  by (simp add: ENV_def Let_def contains_iff)

theorem ENV_result_witness:
  "ENV (demoWorld [(''CONFIGOR_ENV'', ''production'')] ''/usr/bin/app'' []) = ''production''
   \<and> ENV (demoWorld [] ''/tmp/go-build1/pkg/_test/pkg.test'' []) = ''test''
   \<and> ENV (demoWorld [] ''/usr/bin/app'' []) = ''development''"
proof -
  let ?W1 = "demoWorld [(''CONFIGOR_ENV'', ''production'')] ''/usr/bin/app'' []"
  let ?W2 = "demoWorld [] ''/tmp/go-build1/pkg/_test/pkg.test'' []"
  let ?W3 = "demoWorld [] ''/usr/bin/app'' []"
  have a: "Getenv ?W1 ''CONFIGOR_ENV'' = ''production''" by (simp add: demoWorld_def)
  have b: "Getenv ?W2 ''CONFIGOR_ENV'' = []" "Getenv ?W3 ''CONFIGOR_ENV'' = []"
    by (simp_all add: demoWorld_def)
  have c: "Args0 ?W2 = ''/tmp/go-build1/pkg'' @ ''/_test/'' @ ''pkg.test''"
    by (simp add: demoWorld_def)
  have d: "\<not> (\<exists>pre post. Args0 ?W3 = pre @ ''/_test/'' @ post)"
    unfolding contains_iff [symmetric] by (simp add: demoWorld_def)
  from ENV_result [of ?W1] a have 1: "ENV ?W1 = ''production''" by simp
  from ENV_result [of ?W2] b c have 2: "ENV ?W2 = ''test''" by blast
  from ENV_result [of ?W3] b d have 3: "ENV ?W3 = ''development''" by blast
  from 1 2 3 show ?thesis by simp
qed

section \<open>The file resolver: what it returns\<close>

text \<open>The body of the resolver's loop, in closed form.\<close>

lemma resolveFile_variants:
  "resolveFile W env file results =
     (if missing W env file
      then Inl (Errorf (''Failed to find configuration '' @ file @ [CHR 0x0A]))
      else Inr (results @ variants W env file))"
  by (auto simp add: resolveFile_def getConfigurationWithENV_def Let_def variants_def missing_def)

lemma resolveLoop_ok:
  "resolveLoop W env fs results = Inr paths \<Longrightarrow>
     paths = results @ concat (map (variants W env) fs)"
proof (induction fs arbitrary: results)
  case Nil
  then show ?case by simp
next
  case (Cons f fs)
  from Cons.prems have nm: "\<not> missing W env f"
    by (auto simp add: resolveFile_variants split: if_splits)
  with Cons.prems have "resolveLoop W env fs (results @ variants W env f) = Inr paths"
    by (simp add: resolveFile_variants)
  from Cons.IH [OF this] show ?case by simp
qed


lemmas resolver_eval =
  getConfigurations_def resolveFile_def getConfigurationWithENV_def envFileOf_def
  Ext_def TrimSuffix_def HasSuffix_def ENV_def demoWorld_def Let_def

text \<open>The definitions that evaluate the binding engine on a concrete process.\<close>

lemmas binding_eval =
  bindField_def overrideStep_def defaultStep_def envNameOf_def Tag_Get_def ToUpper_def
  upperChar_def DeepEqual_def libResult_def demoWorld_def Let_def

text \<open>
  Claim C4, as the code has it. When \<^verbatim>\<open>getConfigurations\<close> succeeds, its result is the
  concatenation of what each file reference contributes, the references taken from the
  last to the first (the loop of line 50 counts down); each reference contributes its
  base path before its environment variant. \<^verbatim>\<open>Load\<close> decodes exactly these paths, one
  after the other in this order, each file into the object as the files before it left
  it, and calls \<^verbatim>\<open>processTags\<close> on the object the last file left. For two references
  \<open>a\<close> and \<open>b\<close> the paths of the second reference \<open>b\<close> come before those of the first,
  and \<^verbatim>\<open>Load\<close> decodes the files of \<open>b\<close> and then, into their result, the files of \<open>a\<close>.
\<close>

theorem getConfigurations_order:
  assumes "getConfigurations W files = Inr paths"
  shows "paths = concat (map (variants W (ENV W)) (rev files))
       \<and> (\<forall>a b. files = [a, b] \<longrightarrow> paths = variants W (ENV W) b @ variants W (ENV W) a)
       \<and> Load n W config files =
           (case loadFiles W config paths of
              (c, Some err) \<Rightarrow> Some (c, Some err)
            | (c, None) \<Rightarrow> processTags n W c (initialPrefix W c))
       \<and> (\<forall>c ps qs. loadFiles W c (ps @ qs) =
             (case loadFiles W c ps of
                (c1, Some err) \<Rightarrow> (c1, Some err)
              | (c1, None) \<Rightarrow> loadFiles W c1 qs))
       \<and> (\<forall>c q. loadFiles W c [q] = load W c q)
       \<and> (\<forall>a b. files = [a, b] \<longrightarrow>
            Load n W config files =
              (case loadFiles W config (variants W (ENV W) b) of
                 (c1, Some err) \<Rightarrow> Some (c1, Some err)
               | (c1, None) \<Rightarrow>
                   (case loadFiles W c1 (variants W (ENV W) a) of
                      (c2, Some err) \<Rightarrow> Some (c2, Some err)
                    | (c2, None) \<Rightarrow> processTags n W c2 (initialPrefix W c2))))"
proof -
  from assms have p: "paths = [] @ concat (map (variants W (ENV W)) (rev files))"
    unfolding getConfigurations_def by (rule resolveLoop_ok)
  have app: "loadFiles W c (ps @ qs) =
             (case loadFiles W c ps of
                (c1, Some err) \<Rightarrow> (c1, Some err)
              | (c1, None) \<Rightarrow> loadFiles W c1 qs)" for c ps qs
    by (induction ps arbitrary: c) (auto split: prod.splits option.splits)
  have single: "loadFiles W c [q] = load W c q" for c q
    by (auto split: prod.splits option.splits)
  have l: "Load n W config files =
           (case loadFiles W config paths of
              (c, Some err) \<Rightarrow> Some (c, Some err)
            | (c, None) \<Rightarrow> processTags n W c (initialPrefix W c))"
    by (simp add: Load_def assms)
  have two: "Load n W config files =
              (case loadFiles W config (variants W (ENV W) b) of
                 (c1, Some err) \<Rightarrow> Some (c1, Some err)
               | (c1, None) \<Rightarrow>
                   (case loadFiles W c1 (variants W (ENV W) a) of
                      (c2, Some err) \<Rightarrow> Some (c2, Some err)
                    | (c2, None) \<Rightarrow> processTags n W c2 (initialPrefix W c2)))"
    if "files = [a, b]" for a b
  proof -
    from p that have "paths = variants W (ENV W) b @ variants W (ENV W) a" by simp
    then show ?thesis
      unfolding l by (simp add: app split: prod.splits option.splits)
  qed
  from p l two show ?thesis
    by (simp add: app single del: loadFiles.simps)
qed

theorem getConfigurations_order_witness:
  "getConfigurations orderWorld [''a.yml'', ''b.yml''] = Inr [''b.yml'', ''a.yml'']
   \<and> loadFiles orderWorld (VStruct [(\<lparr>Name = ''Port'', Tag = []\<rparr>, VInt 0)]) [''b.yml'']
       = (VStruct [(\<lparr>Name = ''Port'', Tag = []\<rparr>, VInt 2)], None)
   \<and> Load (Suc 0) orderWorld (VStruct [(\<lparr>Name = ''Port'', Tag = []\<rparr>, VInt 0)])
        [''a.yml'', ''b.yml'']
       = Some (VStruct [(\<lparr>Name = ''Port'', Tag = []\<rparr>, VInt 1)], None)"
proof -
  let ?c = "VStruct [(\<lparr>Name = ''Port'', Tag = []\<rparr>, VInt 0)]"
  let ?c1 = "VStruct [(\<lparr>Name = ''Port'', Tag = []\<rparr>, VInt 1)]"
  let ?c2 = "VStruct [(\<lparr>Name = ''Port'', Tag = []\<rparr>, VInt 2)]"
  have g: "getConfigurations orderWorld [''a.yml'', ''b.yml''] = Inr [''b.yml'', ''a.yml'']"
    by (simp add: resolver_eval orderWorld_def)
  have e: "ENV orderWorld = ''development''" by (simp add: ENV_def orderWorld_def demoWorld_def)
  have va: "variants orderWorld ''development'' ''a.yml'' = [''a.yml'']"
    and vb: "variants orderWorld ''development'' ''b.yml'' = [''b.yml'']"
    by (simp_all add: variants_def resolver_eval orderWorld_def)
  have lb: "loadFiles orderWorld ?c [''b.yml''] = (?c2, None)"
    by (simp add: load_def HasSuffix_def libResult_def orderWorld_def demoWorld_def)
  have la: "loadFiles orderWorld ?c2 [''a.yml''] = (?c1, None)"
    by (simp add: load_def HasSuffix_def libResult_def orderWorld_def demoWorld_def)
  have pt: "processTags (Suc 0) orderWorld ?c1 (initialPrefix orderWorld ?c1) = Some (?c1, None)"
    by (simp add: binding_eval initialPrefix_def getPrefix_def orderWorld_def)
  from getConfigurations_order [OF g, of "Suc 0" ?c]
  have "Load (Suc 0) orderWorld ?c [''a.yml'', ''b.yml''] =
              (case loadFiles orderWorld ?c (variants orderWorld (ENV orderWorld) ''b.yml'') of
                 (c1, Some err) \<Rightarrow> Some (c1, Some err)
               | (c1, None) \<Rightarrow>
                   (case loadFiles orderWorld c1 (variants orderWorld (ENV orderWorld) ''a.yml'') of
                      (c2, Some err) \<Rightarrow> Some (c2, Some err)
                    | (c2, None) \<Rightarrow> processTags (Suc 0) orderWorld c2 (initialPrefix orderWorld c2)))"
    by blast
  then have "Load (Suc 0) orderWorld ?c [''a.yml'', ''b.yml''] = Some (?c1, None)"
    unfolding e va vb lb by (simp only: prod.case option.case la pt)
  with g lb show ?thesis by simp
qed

text \<open>
  The claim as first stated has the paths of the second reference after those of the
  first. With two files \<^verbatim>\<open>a.yml\<close> and \<^verbatim>\<open>b.yml\<close> on disk and the references in that
  order, the resolver returns \<^verbatim>\<open>b.yml\<close> first.
\<close>

theorem second_reference_first_counterexample:
  "getConfigurations (demoWorld [] ''/usr/bin/app'' [(''a.yml'', ''{}''), (''b.yml'', ''{}'')])
     [''a.yml'', ''b.yml''] = Inr [''b.yml'', ''a.yml'']
   \<and> variants (demoWorld [] ''/usr/bin/app'' [(''a.yml'', ''{}''), (''b.yml'', ''{}'')])
       ''development'' ''a.yml'' = [''a.yml'']
   \<and> variants (demoWorld [] ''/usr/bin/app'' [(''a.yml'', ''{}''), (''b.yml'', ''{}'')])
       ''development'' ''b.yml'' = [''b.yml'']"
  by (simp add: resolver_eval variants_def)



section \<open>Reading and writing one file: what happens\<close>

text \<open>
  Claim C6, on the code. \<^verbatim>\<open>Save\<close> returns the error "Unknown file type" for a file name
  that ends in none of \<^verbatim>\<open>.yaml\<close>, \<^verbatim>\<open>.yml\<close>, \<^verbatim>\<open>.json\<close>, and writes nothing then. When the
  encoder of a YAML or JSON target fails, \<^verbatim>\<open>Save\<close> writes nothing and returns no error
  (line 101 returns \<^verbatim>\<open>nil\<close>): the failure of the encoder does not reach the caller.
\<close>

theorem Save_encode_failure:
  "((HasSuffix filename ''.yaml'' \<or> HasSuffix filename ''.yml'')
      \<and> yamlMarshal W config = Inl err
     \<longrightarrow> Save W config filename = ([], None))
   \<and> (\<not> (HasSuffix filename ''.yaml'' \<or> HasSuffix filename ''.yml'')
      \<and> HasSuffix filename ''.json'' \<and> jsonMarshal W config = Inl err
     \<longrightarrow> Save W config filename = ([], None))
   \<and> (\<not> (HasSuffix filename ''.yaml'' \<or> HasSuffix filename ''.yml'')
      \<and> \<not> HasSuffix filename ''.json''
     \<longrightarrow> Save W config filename = ([], Some (Errorf ''Unknown file type'')))"
  by (simp add: Save_def)

theorem Save_encode_failure_witness:
  "Save ((demoWorld [] ''/usr/bin/app'' [])\<lparr>jsonMarshal := (\<lambda>c. Inl ''json: unsupported value: NaN'')\<rparr>)
     (VStruct []) ''config.json'' = ([], None)
   \<and> Save (demoWorld [] ''/usr/bin/app'' []) (VStruct []) ''config.toml''
     = ([], Some (Errorf ''Unknown file type''))"
proof -
  let ?W = "(demoWorld [] ''/usr/bin/app'' [])\<lparr>jsonMarshal := (\<lambda>c. Inl ''json: unsupported value: NaN'')\<rparr>"
  have a: "\<not> (HasSuffix ''config.json'' ''.yaml'' \<or> HasSuffix ''config.json'' ''.yml'')
      \<and> HasSuffix ''config.json'' ''.json''
      \<and> jsonMarshal ?W (VStruct []) = Inl ''json: unsupported value: NaN''"
    by (simp add: HasSuffix_def)
  have b: "\<not> (HasSuffix ''config.toml'' ''.yaml'' \<or> HasSuffix ''config.toml'' ''.yml'')
      \<and> \<not> HasSuffix ''config.toml'' ''.json''"
    by (simp add: HasSuffix_def)
  from Save_encode_failure [of "''config.json''" ?W "VStruct []" "''json: unsupported value: NaN''"] a
  have 1: "Save ?W (VStruct []) ''config.json'' = ([], None)" by blast
  from Save_encode_failure [of "''config.toml''" "demoWorld [] ''/usr/bin/app'' []" "VStruct []" "[]"] b
  have 2: "Save (demoWorld [] ''/usr/bin/app'' []) (VStruct []) ''config.toml''
     = ([], Some (Errorf ''Unknown file type''))" by blast
  from 1 2 show ?thesis by simp
qed

text \<open>
  Claim C7. For a file that was read and whose name ends in none of \<^verbatim>\<open>.yaml\<close>, \<^verbatim>\<open>.yml\<close>,
  \<^verbatim>\<open>.toml\<close>, \<^verbatim>\<open>.json\<close>, \<^verbatim>\<open>load\<close> tries the TOML decoder, then the JSON decoder, then
  the YAML decoder, each on the object as the one before left it; it returns without an
  error at the first decoder that succeeds, and it returns an error ("failed to decode
  config") exactly when all three fail.
\<close>

theorem load_fallback_order:
  assumes "ReadFile W file = Inr data"
    and "\<not> HasSuffix file ''.yaml''" and "\<not> HasSuffix file ''.yml''"
    and "\<not> HasSuffix file ''.toml''" and "\<not> HasSuffix file ''.json''"
  shows "(let t = tomlUnmarshal W data config;
              j = jsonUnmarshal W data (fst t);
              y = yamlUnmarshal W data (fst j)
          in load W config file =
               (if snd t = None then (fst t, None)
                else if snd j = None then (fst j, None)
                else if snd y = None then (fst y, None)
                else (fst y, Some (Errorf ''failed to decode config'')))
             \<and> ((snd (load W config file) \<noteq> None) =
                  (snd t \<noteq> None \<and> snd j \<noteq> None \<and> snd y \<noteq> None)))"
  using assms
  by (auto simp add: load_def Let_def split: prod.splits option.splits)

theorem load_fallback_order_witness:
  "load (demoWorld [] ''/usr/bin/app'' [(''config'', ''{}'')]) (VStruct []) ''config''
     = (VStruct [], None)
   \<and> load (demoWorld [] ''/usr/bin/app'' [(''config'', ''a: ['')]) (VStruct []) ''config''
     = (VStruct [], Some (Errorf ''failed to decode config''))"
proof -
  let ?W1 = "demoWorld [] ''/usr/bin/app'' [(''config'', ''{}'')]"
  let ?W2 = "demoWorld [] ''/usr/bin/app'' [(''config'', ''a: ['')]"
  have r1: "ReadFile ?W1 ''config'' = Inr ''{}''" by (simp add: demoWorld_def)
  have r2: "ReadFile ?W2 ''config'' = Inr ''a: [''" by (simp add: demoWorld_def)
  have s: "\<not> HasSuffix ''config'' ''.yaml''" "\<not> HasSuffix ''config'' ''.yml''"
    "\<not> HasSuffix ''config'' ''.toml''" "\<not> HasSuffix ''config'' ''.json''"
    by (simp_all add: HasSuffix_def)
  from load_fallback_order [OF r1 s, of "VStruct []"]
  have 1: "load ?W1 (VStruct []) ''config'' = (VStruct [], None)"
    by (simp add: demoWorld_def Let_def)
  from load_fallback_order [OF r2 s, of "VStruct []"]
  have 2: "load ?W2 (VStruct []) ''config'' = (VStruct [], Some (Errorf ''failed to decode config''))"
    by (simp add: demoWorld_def Let_def)
  from 1 2 show ?thesis by simp
qed

section \<open>The prefix of the environment variables\<close>

text \<open>
  Claim C8. Once the files are resolved and decoded, \<^verbatim>\<open>Load\<close> is the call of
  \<^verbatim>\<open>processTags\<close> on the merged object with one prefix segment: the value of
  \<^verbatim>\<open>CONFIGOR_ENV_PREFIX\<close> when that variable is not empty, and "configor" otherwise;
  except that for the value "-" the call has the empty prefix list, and then the derived
  name of a field without an \<^verbatim>\<open>env\<close> tag is its upper-cased name alone.
\<close>

theorem Load_initial_prefix:
  assumes "getConfigurations W files = Inr paths"
    and "loadFiles W config paths = (merged, None)"
  shows "(Getenv W ''CONFIGOR_ENV_PREFIX'' = [] \<longrightarrow>
            getPrefix W merged = ''configor''
            \<and> Load n W config files = processTags n W merged [''configor''])
       \<and> (Getenv W ''CONFIGOR_ENV_PREFIX'' \<noteq> [] \<longrightarrow>
            getPrefix W merged = Getenv W ''CONFIGOR_ENV_PREFIX'')
       \<and> (Getenv W ''CONFIGOR_ENV_PREFIX'' \<noteq> [] \<and> Getenv W ''CONFIGOR_ENV_PREFIX'' \<noteq> ''-'' \<longrightarrow>
            Load n W config files = processTags n W merged [Getenv W ''CONFIGOR_ENV_PREFIX''])
       \<and> (Getenv W ''CONFIGOR_ENV_PREFIX'' = ''-'' \<longrightarrow>
            Load n W config files = processTags n W merged []
            \<and> (\<forall>f. Tag_Get (Tag f) ''env'' = [] \<longrightarrow> envNameOf [] f = ToUpper (Name f)))"
  using assms
  by (auto simp add: Load_def initialPrefix_def getPrefix_def envNameOf_def Let_def)

theorem Load_initial_prefix_witness:
  "Load (Suc 0)
     (demoWorld [(''CONFIGOR_ENV_PREFIX'', ''-''), (''PORT'', ''8080'')] ''/usr/bin/app''
        [(''config.yml'', ''{}'')])
     (VStruct [(\<lparr>Name = ''Port'', Tag = []\<rparr>, VInt 0)]) [''config.yml'']
   = Some (VStruct [(\<lparr>Name = ''Port'', Tag = []\<rparr>, VInt 8080)], None)
   \<and> Load (Suc 0)
     (demoWorld [(''CONFIGOR_PORT'', ''8080'')] ''/usr/bin/app''
        [(''config.yml'', ''{}'')])
     (VStruct [(\<lparr>Name = ''Port'', Tag = []\<rparr>, VInt 0)]) [''config.yml'']
   = Some (VStruct [(\<lparr>Name = ''Port'', Tag = []\<rparr>, VInt 8080)], None)"
proof -
  let ?W1 = "demoWorld [(''CONFIGOR_ENV_PREFIX'', ''-''), (''PORT'', ''8080'')] ''/usr/bin/app''
        [(''config.yml'', ''{}'')]"
  let ?W2 = "demoWorld [(''CONFIGOR_PORT'', ''8080'')] ''/usr/bin/app''
        [(''config.yml'', ''{}'')]"
  let ?c = "VStruct [(\<lparr>Name = ''Port'', Tag = []\<rparr>, VInt 0)]"
  have g1: "getConfigurations ?W1 [''config.yml''] = Inr [''config.yml'']"
    by (simp add: resolver_eval)
  have g2: "getConfigurations ?W2 [''config.yml''] = Inr [''config.yml'']"
    by (simp add: resolver_eval)
  have l1: "loadFiles ?W1 ?c [''config.yml''] = (?c, None)"
    by (simp add: load_def HasSuffix_def libResult_def demoWorld_def)
  have l2: "loadFiles ?W2 ?c [''config.yml''] = (?c, None)"
    by (simp add: load_def HasSuffix_def libResult_def demoWorld_def)
  have e1: "Getenv ?W1 ''CONFIGOR_ENV_PREFIX'' = ''-''" by (simp add: demoWorld_def)
  have e2: "Getenv ?W2 ''CONFIGOR_ENV_PREFIX'' = []" by (simp add: demoWorld_def)
  from Load_initial_prefix [OF g1 l1, of "Suc 0"] e1
  have "Load (Suc 0) ?W1 ?c [''config.yml''] = processTags (Suc 0) ?W1 ?c []" by simp
  then have 1: "Load (Suc 0) ?W1 ?c [''config.yml'']
      = Some (VStruct [(\<lparr>Name = ''Port'', Tag = []\<rparr>, VInt 8080)], None)"
    by (simp add: binding_eval)
  from Load_initial_prefix [OF g2 l2, of "Suc 0"] e2
  have "Load (Suc 0) ?W2 ?c [''config.yml''] = processTags (Suc 0) ?W2 ?c [''configor'']" by simp
  then have 2: "Load (Suc 0) ?W2 ?c [''config.yml'']
      = Some (VStruct [(\<lparr>Name = ''Port'', Tag = []\<rparr>, VInt 8080)], None)"
    by (simp add: binding_eval)
  from 1 2 show ?thesis by simp
qed

section \<open>The binding engine: its loops\<close>

text \<open>
  The loop over the fields passes through a list of fields that bind without error and
  goes on with the rest; where it ends without error, every field was bound on its own
  by \<open>bindField\<close>. The same holds for the elements of a slice.
\<close>

lemma fieldLoop_append:
  "fieldLoop rec W prefix (pre @ rest) =
     (case fieldLoop rec W prefix pre of
        None \<Rightarrow> None
      | Some (pre', Some err) \<Rightarrow> Some (pre' @ rest, Some err)
      | Some (pre', None) \<Rightarrow>
          (case fieldLoop rec W prefix rest of
             None \<Rightarrow> None
           | Some (rest', e) \<Rightarrow> Some (pre' @ rest', e)))"
proof (induction pre)
  case Nil
  show ?case by (simp split: option.splits prod.splits)
next
  case (Cons fv pre)
  obtain f v where fv: "fv = (f, v)" by (cases fv)
  show ?case
    unfolding fv using Cons.IH
    by (simp split: option.splits prod.splits)
qed

lemma fieldLoop_ok:
  "fieldLoop rec W prefix flds = Some (flds', None) \<Longrightarrow>
     list_all2 (\<lambda>fv fv'. fst fv' = fst fv
                 \<and> bindField rec W prefix (fst fv) (snd fv) = Some (snd fv', None))
       flds flds'"
proof (induction flds arbitrary: flds')
  case Nil
  then show ?case by simp
next
  case (Cons fv flds)
  obtain f v where fv: "fv = (f, v)" by (cases fv)
  from Cons.prems obtain v' rest' where
    b: "bindField rec W prefix f v = Some (v', None)"
    and r: "fieldLoop rec W prefix flds = Some (rest', None)"
    and e: "flds' = (f, v') # rest'"
    unfolding fv by (auto split: option.splits prod.splits)
  from Cons.IH [OF r] b e show ?case unfolding fv by simp
qed

lemma fieldLoop_ok_nth:
  assumes "fieldLoop rec W prefix flds = Some (flds', None)" and "i < length flds"
  shows "length flds' = length flds \<and> fst (flds' ! i) = fst (flds ! i)
         \<and> bindField rec W prefix (fst (flds ! i)) (snd (flds ! i)) = Some (snd (flds' ! i), None)"
proof -
  let ?P = "\<lambda>fv fv'. fst fv' = fst fv
                 \<and> bindField rec W prefix (fst fv) (snd fv) = Some (snd fv', None)"
  from fieldLoop_ok [OF assms(1)] have a: "list_all2 ?P flds flds'" .
  then have l: "length flds = length flds'" by (rule list_all2_lengthD)
  from a assms(2) have "?P (flds ! i) (flds' ! i)" by (rule list_all2_nthD)
  with l show ?thesis by simp
qed


lemma Join_last_nonempty: "x \<noteq> [] \<Longrightarrow> Join (xs @ [x]) sep \<noteq> []"
  by (induction xs sep rule: Join.induct) auto

lemma envNameOf_nonempty: "Name f \<noteq> [] \<Longrightarrow> envNameOf prefix f \<noteq> []"
  by (simp add: envNameOf_def Let_def ToUpper_def Join_last_nonempty)

lemma descend_scalar:
  "Kind (Some v) = KInt \<or> Kind (Some v) = KString \<or> Kind (Some v) = KBool \<Longrightarrow>
     descend rec f prefix v = Some (v, None)"
  by (cases v) auto

lemma processTags_struct:
  "processTags (Suc n) W (VStruct flds) prefix =
     (case fieldLoop (processTags n W) W prefix flds of
        None \<Rightarrow> None
      | Some (flds', e) \<Rightarrow> Some (VStruct flds', e))"
  by simp

section \<open>Fuel\<close>

text \<open>
  A result of \<^verbatim>\<open>processTags\<close> does not depend on the fuel: once some fuel gives a result,
  every larger amount gives the same one. And some bindings end with no amount of
  fuel: the self-referential type with a default never gets to the end.
\<close>

lemma sliceLoop_mono:
  assumes le: "\<And>x p r. rec x p = Some r \<Longrightarrow> rec' x p = Some r"
  shows "sliceLoop rec path k xs = Some r \<Longrightarrow> sliceLoop rec' path k xs = Some r"
proof (induction xs arbitrary: k r)
  case Nil
  then show ?case by simp
next
  case (Cons x xs)
  show ?case
  proof (cases "Kind (Indirect x) = KStruct")
    case True
    with Cons.prems obtain x' e where h: "rec x (path @ [Sprintf_d k]) = Some (x', e)"
      by (auto split: option.splits)
    from le [OF h] have h': "rec' x (path @ [Sprintf_d k]) = Some (x', e)" .
    show ?thesis
    proof (cases e)
      case (Some err)
      with Cons.prems True h h' show ?thesis by simp
    next
      case None
      with Cons.prems True h obtain rest' e' where
        t: "sliceLoop rec path (Suc k) xs = Some (rest', e')" and r: "r = (x' # rest', e')"
        by (auto split: option.splits)
      from Cons.IH [OF t] True h' None r show ?thesis by simp
    qed
  next
    case False
    with Cons.prems obtain rest' e' where
      t: "sliceLoop rec path (Suc k) xs = Some (rest', e')" and r: "r = (x # rest', e')"
      by (auto split: option.splits)
    from Cons.IH [OF t] False r show ?thesis by simp
  qed
qed

lemma descend_mono:
  "(\<And>x p r. rec x p = Some r \<Longrightarrow> rec' x p = Some r) \<Longrightarrow>
     descend rec f prefix v = Some r \<Longrightarrow> descend rec' f prefix v = Some r"
proof (induction rec f prefix v arbitrary: r rule: descend.induct)
  case (2 rec f prefix p)
  from "2.prems"(2) obtain p' e where
    h: "descend rec f prefix p = Some (p', e)" and r: "r = (VPtr (Some p'), e)"
    by (auto split: option.splits)
  from "2.IH" [OF "2.prems"(1) h] r show ?case by simp
next
  case (3 rec f prefix flds)
  from "3.prems"(1) [of "VStruct flds" "prefix @ [Name f]" r] "3.prems"(2)
  show ?case by simp
next
  case (5 rec f prefix xs)
  from "5.prems"(2) obtain xs' e where
    h: "sliceLoop rec (prefix @ [Name f]) 0 xs = Some (xs', e)" and r: "r = (VSlice (Some xs'), e)"
    by (auto split: option.splits)
  from sliceLoop_mono [where rec = rec and rec' = rec', OF "5.prems"(1) h] r
  show ?case by simp
qed simp_all

lemma bindField_mono:
  assumes le: "\<And>x p r. rec x p = Some r \<Longrightarrow> rec' x p = Some r"
  shows "bindField rec W prefix f v = Some r \<Longrightarrow> bindField rec' W prefix f v = Some r"
  unfolding bindField_def
  using descend_mono [where rec = rec and rec' = rec', OF le]
  by (auto split: prod.splits option.splits)

lemma fieldLoop_mono:
  assumes le: "\<And>x p r. rec x p = Some r \<Longrightarrow> rec' x p = Some r"
  shows "fieldLoop rec W prefix flds = Some r \<Longrightarrow> fieldLoop rec' W prefix flds = Some r"
proof (induction flds arbitrary: r)
  case Nil
  then show ?case by simp
next
  case (Cons fv flds)
  obtain f v where fv: "fv = (f, v)" by (cases fv)
  from Cons.prems obtain v' e where h: "bindField rec W prefix f v = Some (v', e)"
    unfolding fv by (auto split: option.splits)
  from bindField_mono [where rec = rec and rec' = rec', OF le h]
  have h': "bindField rec' W prefix f v = Some (v', e)" .
  show ?case
  proof (cases e)
    case (Some err)
    with Cons.prems h h' show ?thesis unfolding fv by simp
  next
    case None
    with Cons.prems h obtain rest' e' where
      t: "fieldLoop rec W prefix flds = Some (rest', e')" and r: "r = ((f, v') # rest', e')"
      unfolding fv by (auto split: option.splits)
    from Cons.IH [OF t] h' None r show ?thesis unfolding fv by simp
  qed
qed

lemma processTags_Suc:
  "processTags n W config prefix = Some r \<Longrightarrow> processTags (Suc n) W config prefix = Some r"
proof (induction n arbitrary: config prefix r)
  case 0
  then show ?case by simp
next
  case (Suc n)
  show ?case
  proof (cases config)
    case (VStruct flds)
    with Suc.prems obtain flds' e where
      h: "fieldLoop (processTags n W) W prefix flds = Some (flds', e)" and r: "r = (VStruct flds', e)"
      by (auto split: option.splits)
    have "fieldLoop (processTags (Suc n) W) W prefix flds = Some (flds', e)"
      by (rule fieldLoop_mono [where rec = "processTags n W", OF Suc.IH h])
    with VStruct r show ?thesis by (simp add: processTags_struct)
  qed (use Suc.prems in simp_all)
qed

lemma processTags_more_fuel:
  "processTags n W config prefix = Some r \<Longrightarrow> processTags (n + k) W config prefix = Some r"
  by (induction k) (simp_all add: processTags_Suc del: processTags.simps)

lemma processTags_out_of_fuel:
  "processTags n loopWorld (VStruct [(nextField, VPtr None)]) prefix = None"
proof (induction n arbitrary: prefix)
  case 0
  show ?case by simp
next
  case (Suc n)
  have ov: "overrideStep loopWorld (envNameOf prefix nextField) (VPtr None) = (VPtr None, None)"
    by (simp add: overrideStep_def loopWorld_def demoWorld_def)
  have df: "defaultStep loopWorld nextField (VPtr None)
      = (VPtr (Some (VStruct [(nextField, VPtr None)])), None)"
    by (simp add: defaultStep_def DeepEqual_def nextField_def Tag_Get_def libResult_def
        loopWorld_def)
  have "bindField (processTags n loopWorld) loopWorld prefix nextField (VPtr None) = None"
    by (simp add: bindField_def ov df Suc.IH)
  then show ?case by (simp add: processTags_struct)
qed

section \<open>Required fields\<close>



section \<open>Nil pointers\<close>

text \<open>
  Claim C10. Take a struct whose fields before \<open>f\<close> bind without error, and let \<open>f\<close> be a
  nil pointer after the override step and the default step. Then the body of the loop
  returns the nil pointer and no error whatever the recursive call would do (it is not
  made: nothing is allocated and nothing behind the pointer is bound or checked), and
  \<^verbatim>\<open>processTags\<close> goes on with the fields after \<open>f\<close>; in its result \<open>f\<close> is still nil.
\<close>

theorem nil_pointer_not_entered:
  assumes "fieldLoop (processTags n W) W prefix pre = Some (pre', None)"
    and "overrideStep W (envNameOf prefix f) v = (v1, None)"
    and "defaultStep W f v1 = (VPtr None, None)"
  shows "(\<forall>rec. bindField rec W prefix f v = Some (VPtr None, None))
       \<and> processTags (Suc n) W (VStruct (pre @ (f, v) # post)) prefix =
           (case fieldLoop (processTags n W) W prefix post of
              None \<Rightarrow> None
            | Some (post', e) \<Rightarrow> Some (VStruct (pre' @ (f, VPtr None) # post'), e))"
proof -
  have b: "bindField rec W prefix f v = Some (VPtr None, None)" for rec
    by (simp add: bindField_def assms(2) assms(3))
  have "fieldLoop (processTags n W) W prefix (pre @ (f, v) # post) =
          (case fieldLoop (processTags n W) W prefix post of
              None \<Rightarrow> None
            | Some (post', e) \<Rightarrow> Some (pre' @ (f, VPtr None) # post', e))"
    by (simp add: fieldLoop_append assms(1) b split: option.splits prod.splits)
  then have "processTags (Suc n) W (VStruct (pre @ (f, v) # post)) prefix =
           (case fieldLoop (processTags n W) W prefix post of
              None \<Rightarrow> None
            | Some (post', e) \<Rightarrow> Some (VStruct (pre' @ (f, VPtr None) # post'), e))"
    by (simp add: processTags_struct split: option.splits prod.splits)
  with b show ?thesis by blast
qed

theorem nil_pointer_not_entered_witness:
  "processTags (Suc 0) (demoWorld [(''CONFIGOR_DB_PORT'', ''5432'')] ''/usr/bin/app'' [])
     (VStruct [(\<lparr>Name = ''DB'', Tag = []\<rparr>, VPtr None),
               (\<lparr>Name = ''Port'', Tag = [(''default'', ''8080'')]\<rparr>, VInt 0)])
     [''configor'']
   = Some (VStruct [(\<lparr>Name = ''DB'', Tag = []\<rparr>, VPtr None),
               (\<lparr>Name = ''Port'', Tag = [(''default'', ''8080'')]\<rparr>, VInt 8080)],
           None)"
proof -
  let ?W = "demoWorld [(''CONFIGOR_DB_PORT'', ''5432'')] ''/usr/bin/app'' []"
  let ?db = "\<lparr>Name = ''DB'', Tag = []\<rparr>"
  let ?port = "\<lparr>Name = ''Port'', Tag = [(''default'', ''8080'')]\<rparr>"
  have pre: "fieldLoop (processTags 0 ?W) ?W [''configor''] [] = Some ([], None)" by simp
  have ov: "overrideStep ?W (envNameOf [''configor''] ?db) (VPtr None) = (VPtr None, None)"
    by (simp add: binding_eval)
  have df: "defaultStep ?W ?db (VPtr None) = (VPtr None, None)"
    by (simp add: binding_eval)
  have post: "fieldLoop (processTags 0 ?W) ?W [''configor''] [(?port, VInt 0)]
               = Some ([(?port, VInt 8080)], None)"
    by (simp add: binding_eval)
  from nil_pointer_not_entered [OF pre ov df, of "[(?port, VInt 0)]"] post
  show ?thesis by simp
qed

section \<open>Overrides and defaults\<close>

text \<open>The override step of a named field reads one variable of the environment.\<close>

lemma overrideStep_named:
  "Name f \<noteq> [] \<Longrightarrow>
     overrideStep W (envNameOf prefix f) v =
       (if Getenv W (envNameOf prefix f) = [] then (v, None)
        else libResult (yamlUnmarshal W (Getenv W (envNameOf prefix f)) v))"
  by (simp add: overrideStep_def Let_def envNameOf_nonempty)

text \<open>\<^verbatim>\<open>Load\<close> returns without error only through its call of \<^verbatim>\<open>processTags\<close>.\<close>

lemma Load_ok:
  "Load n W config files = Some (config', None) \<Longrightarrow>
     \<exists>paths merged. getConfigurations W files = Inr paths
       \<and> loadFiles W config paths = (merged, None)
       \<and> processTags n W merged (initialPrefix W merged) = Some (config', None)"
  by (auto simp add: Load_def split: sum.splits prod.splits option.splits)

text \<open>
  Claim C1, as the code has it. Let \<^verbatim>\<open>processTags\<close> return without error on a struct
  (\<^verbatim>\<open>Load\<close> returns without error only when its call of \<^verbatim>\<open>processTags\<close> does, and every
  nested struct is bound by such a call), and let its field \<open>f\<close> declare a default and
  have a non-empty value in the environment under its derived name (the name of a Go
  field is never empty). Then that value was decoded into the field without error, giving
  \<open>w\<close>. If \<open>w\<close> is not the zero value of its type, the default is not decoded and the
  field ends as \<open>w\<close> with its own nested fields bound (as \<open>w\<close> itself when it is a
  scalar). If \<open>w\<close> is the zero value, the default literal is decoded over it and the
  field ends as the default's value, not the override's. For every field, the default
  step leaves a value that is not zero as it is.
\<close>

theorem override_before_default:
  assumes "processTags (Suc n) W (VStruct flds) prefix = Some (VStruct flds', None)"
    and "i < length flds" and "flds ! i = (f, v)"
    and "Name f \<noteq> []"
    and "Tag_Get (Tag f) ''default'' \<noteq> []"
    and "Getenv W (envNameOf prefix f) \<noteq> []"
  shows "(let w = fst (yamlUnmarshal W (Getenv W (envNameOf prefix f)) v)
          in snd (yamlUnmarshal W (Getenv W (envNameOf prefix f)) v) = None
           \<and> fst (flds' ! i) = f
           \<and> (w \<noteq> Zero w \<longrightarrow>
                descend (processTags n W) f prefix w = Some (snd (flds' ! i), None))
           \<and> (w \<noteq> Zero w
                \<and> (Kind (Some w) = KInt \<or> Kind (Some w) = KString \<or> Kind (Some w) = KBool)
                \<longrightarrow> snd (flds' ! i) = w)
           \<and> (w = Zero w \<longrightarrow>
                (\<exists>d. yamlUnmarshal W (Tag_Get (Tag f) ''default'') w = (d, None)
                    \<and> descend (processTags n W) f prefix d = Some (snd (flds' ! i), None))))
         \<and> (\<forall>v1. v1 \<noteq> Zero v1 \<longrightarrow> defaultStep W f v1 = (v1, None))"
proof -
  define y where "y = yamlUnmarshal W (Getenv W (envNameOf prefix f)) v"
  define w where "w = fst y"
  define r where "r = snd (flds' ! i)"
  from assms(1) have loop: "fieldLoop (processTags n W) W prefix flds = Some (flds', None)"
    by (auto simp add: processTags_struct split: option.splits prod.splits)
  from fieldLoop_ok_nth [OF loop assms(2)] assms(3)
  have fst_ok: "fst (flds' ! i) = f"
    and b: "bindField (processTags n W) W prefix f v = Some (r, None)"
    by (simp_all add: r_def)
  have ov: "overrideStep W (envNameOf prefix f) v = libResult y"
    using assms(4) assms(6) by (simp add: overrideStep_named y_def)
  have ok: "snd y = None"
  proof (cases "snd y")
    case None
    then show ?thesis .
  next
    case (Some m)
    with b ov show ?thesis by (simp add: bindField_def libResult_def)
  qed
  then have ov': "overrideStep W (envNameOf prefix f) v = (w, None)"
    using ov by (simp add: libResult_def w_def)
  have nz: "descend (processTags n W) f prefix w = Some (r, None)" if "w \<noteq> Zero w"
    using b that by (simp add: bindField_def ov' defaultStep_def DeepEqual_def)
  have sc: "r = w" if "w \<noteq> Zero w"
    and "Kind (Some w) = KInt \<or> Kind (Some w) = KString \<or> Kind (Some w) = KBool"
    using nz [OF that(1)] descend_scalar [OF that(2), of "processTags n W" f prefix] by simp
  have z: "\<exists>d. yamlUnmarshal W (Tag_Get (Tag f) ''default'') w = (d, None)
             \<and> descend (processTags n W) f prefix d = Some (r, None)" if "w = Zero w"
  proof -
    obtain d e where de: "yamlUnmarshal W (Tag_Get (Tag f) ''default'') w = (d, e)"
      by (cases "yamlUnmarshal W (Tag_Get (Tag f) ''default'') w")
    from that assms(5) have ds: "defaultStep W f w = (d, map_option LibError e)"
      by (simp add: defaultStep_def DeepEqual_def Let_def libResult_def de)
    from b have "e = None \<and> descend (processTags n W) f prefix d = Some (r, None)"
      by (cases e) (simp_all add: bindField_def ov' ds)
    with de show ?thesis by simp
  qed
  have gen: "\<forall>v1. v1 \<noteq> Zero v1 \<longrightarrow> defaultStep W f v1 = (v1, None)"
    by (simp add: defaultStep_def DeepEqual_def)
  from ok fst_ok nz sc z gen show ?thesis
    unfolding Let_def w_def [symmetric] y_def [symmetric] r_def [symmetric]
    by (simp add: w_def)
qed

theorem override_before_default_witness:
  "processTags (Suc 0) (demoWorld [(''CONFIGOR_PORT'', ''9090'')] ''/usr/bin/app'' [])
     (VStruct [(\<lparr>Name = ''Port'', Tag = [(''default'', ''8080'')]\<rparr>, VInt 0)]) [''configor'']
   = Some (VStruct [(\<lparr>Name = ''Port'', Tag = [(''default'', ''8080'')]\<rparr>, VInt 9090)], None)
   \<and> fst (yamlUnmarshal (demoWorld [(''CONFIGOR_PORT'', ''9090'')] ''/usr/bin/app'' [])
            ''9090'' (VInt 0)) = VInt 9090"
proof -
  let ?W = "demoWorld [(''CONFIGOR_PORT'', ''9090'')] ''/usr/bin/app'' []"
  let ?port = "\<lparr>Name = ''Port'', Tag = [(''default'', ''8080'')]\<rparr>"
  have run: "processTags (Suc 0) ?W (VStruct [(?port, VInt 0)]) [''configor'']
       = Some (VStruct [(?port, VInt 9090)], None)"
    by (simp add: binding_eval)
  have i: "0 < length [(?port, VInt 0)]" "[(?port, VInt 0)] ! 0 = (?port, VInt 0)" by simp_all
  have n: "Name ?port \<noteq> []" by simp
  have d: "Tag_Get (Tag ?port) ''default'' \<noteq> []" by (simp add: Tag_Get_def)
  have nm: "envNameOf [''configor''] ?port = ''CONFIGOR_PORT''" by (simp add: binding_eval)
  have g: "Getenv ?W (envNameOf [''configor''] ?port) \<noteq> []"
    unfolding nm by (simp add: demoWorld_def)
  have gv: "Getenv ?W ''CONFIGOR_PORT'' = ''9090''" by (simp add: demoWorld_def)
  have w: "yamlUnmarshal ?W ''9090'' (VInt 0) = (VInt 9090, None)" by (simp add: demoWorld_def)
  from override_before_default [OF run i n d g]
  have "snd ([(?port, VInt 9090)] ! 0) = fst (yamlUnmarshal ?W ''9090'' (VInt 0))"
    unfolding nm gv Let_def w by simp
  with run show ?thesis by simp
qed

text \<open>
  The claim as first stated gives the override precedence in every case. With the
  default "8080" declared and the variable \<^verbatim>\<open>CONFIGOR_PORT\<close> set to "0", which decodes to
  0, \<^verbatim>\<open>Load\<close> returns without error and the field holds 8080.
\<close>

theorem zero_override_counterexample:
  "Load (Suc 0) (demoWorld [(''CONFIGOR_PORT'', ''0'')] ''/usr/bin/app'' [(''config.yml'', ''{}'')])
     (VStruct [(\<lparr>Name = ''Port'', Tag = [(''default'', ''8080'')]\<rparr>, VInt 0)]) [''config.yml'']
   = Some (VStruct [(\<lparr>Name = ''Port'', Tag = [(''default'', ''8080'')]\<rparr>, VInt 8080)], None)
   \<and> Getenv (demoWorld [(''CONFIGOR_PORT'', ''0'')] ''/usr/bin/app'' [(''config.yml'', ''{}'')])
        (envNameOf [''configor''] \<lparr>Name = ''Port'', Tag = [(''default'', ''8080'')]\<rparr>) = ''0''
   \<and> yamlUnmarshal (demoWorld [(''CONFIGOR_PORT'', ''0'')] ''/usr/bin/app'' [(''config.yml'', ''{}'')])
        ''0'' (VInt 0) = (VInt 0, None)"
proof -
  let ?W = "demoWorld [(''CONFIGOR_PORT'', ''0'')] ''/usr/bin/app'' [(''config.yml'', ''{}'')]"
  let ?c = "VStruct [(\<lparr>Name = ''Port'', Tag = [(''default'', ''8080'')]\<rparr>, VInt 0)]"
  have g: "getConfigurations ?W [''config.yml''] = Inr [''config.yml'']"
    by (simp add: resolver_eval)
  have l: "loadFiles ?W ?c [''config.yml''] = (?c, None)"
    by (simp add: load_def HasSuffix_def libResult_def demoWorld_def)
  have p: "initialPrefix ?W ?c = [''configor'']"
    by (simp add: initialPrefix_def getPrefix_def demoWorld_def)
  have r: "processTags (Suc 0) ?W ?c [''configor'']
      = Some (VStruct [(\<lparr>Name = ''Port'', Tag = [(''default'', ''8080'')]\<rparr>, VInt 8080)], None)"
    by (simp add: binding_eval)
  have 1: "Load (Suc 0) ?W ?c [''config.yml'']
      = Some (VStruct [(\<lparr>Name = ''Port'', Tag = [(''default'', ''8080'')]\<rparr>, VInt 8080)], None)"
    by (simp del: loadFiles.simps processTags.simps add: Load_def g l p r)
  have 2: "Getenv ?W (envNameOf [''configor''] \<lparr>Name = ''Port'', Tag = [(''default'', ''8080'')]\<rparr>) = ''0''"
    by (simp add: binding_eval)
  have 3: "yamlUnmarshal ?W ''0'' (VInt 0) = (VInt 0, None)" by (simp add: demoWorld_def)
  from 1 2 3 show ?thesis by simp
qed

section \<open>The names of the environment variables\<close>










text \<open>
  An element of a slice that is a pointer to a struct passes the test of line 177, and
  line 178 then hands \<^verbatim>\<open>processTags\<close> the address of the pointer: the call returns the
  error of line 130 and the binding of the slice ends there.
\<close>

lemma sliceLoop_pointer_element:
  "sliceLoop (processTags (Suc n) W) path i (VPtr (Some (VStruct s)) # rest) =
     Some (VPtr (Some (VStruct s)) # rest, Some (Errorf ''invalid config, should be struct''))"
  by simp



end
